theory Spec2Isabelle
  imports Main "HOL-Library.Sublist" "HOL-Library.AList" "HOL-Library.Multiset"
begin

section \<open>Dates and number formatting\<close>

text \<open>
  A JavaScript \<open>Date\<close> object, as far as the core reads it: its time value in
  milliseconds since the epoch (\<open>getTime()\<close>, also what the relational operators
  compare) and the two locale renderings used in item titles. Every \<open>new Date()\<close>
  and \<open>Date.now()\<close> of the source is an explicit argument of the model.
\<close>

record Date =
  getTime :: int
  toLocaleDateString :: string
  toLocaleTimeString :: string

text \<open>
  Numbers are modelled as integers. JavaScript computes on doubles, which is exact for
  integers up to \<open>Number.MAX_SAFE_INTEGER\<close>; a \<open>Date\<close> holds a time value of
  at most 8.64e15 ms in absolute value, and \<open>new Date(v)\<close> for a number \<open>v\<close>
  beyond that is an Invalid Date, whose time value is \<open>NaN\<close> (here \<open>None\<close>).
  Every relational comparison with an Invalid Date is false.
\<close>

definition maxSafeInteger :: int where
  "maxSafeInteger = 9007199254740991"

definition maxTimeValue :: int where
  "maxTimeValue = 8640000000000000"

definition newDate :: "int \<Rightarrow> int option" where
  "newDate v = (if \<bar>v\<bar> \<le> maxTimeValue then Some v else None)"

text \<open>\<open>a > b\<close> for a valid date \<open>a\<close> (by its time value) and a constructed date \<open>b\<close>.\<close>

definition date_gt :: "int \<Rightarrow> int option \<Rightarrow> bool" where
  "date_gt a b = (case b of None \<Rightarrow> False | Some t \<Rightarrow> a > t)"

text \<open>
  Number to string conversion inside a template literal, for integral values: decimal
  digits, most significant first, with a leading minus sign for negative values.
\<close>

definition digit_char :: "nat \<Rightarrow> char" where
  "digit_char d = ''0123456789'' ! d"

fun show_nat :: "nat \<Rightarrow> string" where
  "show_nat n = (if n < 10 then [digit_char n] else show_nat (n div 10) @ [digit_char (n mod 10)])"

declare show_nat.simps [simp del]

definition number_toString :: "int \<Rightarrow> string" where
  "number_toString i = (if i < 0 then CHR ''-'' # show_nat (nat (- i)) else show_nat (nat i))"

text \<open>Decoders, used only to show that the conversion loses nothing.\<close>

definition digit_val :: "char \<Rightarrow> nat" where
  "digit_val c = of_char c - 48"

definition parse_nat :: "string \<Rightarrow> nat" where
  "parse_nat s = foldl (\<lambda>a c. 10 * a + digit_val c) 0 s"

definition parse_int :: "string \<Rightarrow> int" where
  "parse_int s = (case s of [] \<Rightarrow> 0
                  | c # cs \<Rightarrow> if c = CHR ''-'' then - int (parse_nat cs) else int (parse_nat s))"

section \<open>Configuration and collected content\<close>

text \<open>
  \<open>AgentConfig\<close>: the two fields the orchestration core reads (\<open>role.focusTopic\<close>
  and \<open>outputFormat\<close>). The remaining fields are consulted only by the collector and
  the processor, whose outcomes are arguments of the cycle routine below.
\<close>

record AgentConfig =
  focusTopic :: string
  outputFormat :: string

text \<open>\<open>ProcessedContent\<close>: one collected content item (scores and metadata left out).\<close>

record ProcessedContent =
  pc_id :: string
  source :: string
  timestamp :: Date
  rawContent :: string
  processedContent :: string

section \<open>Feed store: \<open>RSSGenerator\<close> and \<open>RSSFeedManager\<close>\<close>

record RSSItem =
  item_id :: string
  title :: string
  content :: string
  pubDate :: Date
  category :: string
  sourceAttribution :: string
  link :: "string option"

text \<open>
  What \<open>table[key] || dflt\<close> gives for an object literal \<open>table\<close> of strings: a
  text, or, for a key that names a property of \<open>Object.prototype\<close>, that inherited
  property (a function or object, which is truthy, so the default is not taken).
\<close>

datatype js_text = Text string | Inherited string

definition objectPrototypeKeys :: "string list" where
  "objectPrototypeKeys =
    [''constructor'', ''__defineGetter__'', ''__defineSetter__'', ''hasOwnProperty'',
     ''__lookupGetter__'', ''__lookupSetter__'', ''isPrototypeOf'', ''propertyIsEnumerable'',
     ''toString'', ''valueOf'', ''__proto__'', ''toLocaleString'']"

record RSSChannel =
  ch_title :: js_text
  ch_description :: js_text
  ch_category :: string
  lastUpdated :: Date
  generator :: string
  ch_link :: string

record RSSFeed =
  channel :: RSSChannel
  items :: "RSSItem list"

definition formatTitles :: "(string \<times> string) list" where
  "formatTitles =
    [(''normal'', ''COASAGENT - Normal Output''),
     (''question'', ''COASAGENT - Question Mode''),
     (''emoji'', ''COASAGENT - Emoji Mode''),
     (''quote'', ''COASAGENT - Quote Mode''),
     (''info'', ''COASAGENT - Info Insights''),
     (''proverb'', ''COASAGENT - Proverb Mode''),
     (''csv'', ''COASAGENT - CSV Data''),
     (''json'', ''COASAGENT - JSON Data'')]"

definition formatDescriptions :: "(string \<times> string) list" where
  "formatDescriptions =
    [(''normal'', ''AI-generated insights and analysis in plain text format''),
     (''question'', ''Six insightful questions with comprehensive summaries''),
     (''emoji'', ''Best emojis representing current trends and insights''),
     (''quote'', ''Insightful quotes based on current events and trends''),
     (''info'', ''Six informative insights into current topics''),
     (''proverb'', ''Wisdom and proverbs based on current events''),
     (''csv'', ''Structured data in CSV format for analysis''),
     (''json'', ''Structured data in JSON format for integration'')]"

text \<open>\<open>table[key] || dflt\<close>: a missing key and an empty string both give the default.\<close>

definition lookup_or :: "(string \<times> string) list \<Rightarrow> string \<Rightarrow> string \<Rightarrow> js_text" where
  "lookup_or table key dflt =
    (case map_of table key of
       Some v \<Rightarrow> if v = [] then Text dflt else Text v
     | None \<Rightarrow> if key \<in> set objectPrototypeKeys then Inherited key else Text dflt)"

definition generateItemTitle :: "string \<Rightarrow> AgentConfig \<Rightarrow> Date \<Rightarrow> string" where
  "generateItemTitle format config ts =
    (let dateStr = toLocaleDateString ts;
         timeStr = toLocaleTimeString ts;
         baseTopic = (if focusTopic config = [] then ''General Topics'' else focusTopic config)
     in if format = ''question'' then ''6 Questions About '' @ baseTopic @ '' - '' @ dateStr
        else if format = ''emoji'' then ''Top Emojis for '' @ baseTopic @ '' - '' @ dateStr
        else if format = ''quote'' then ''Daily Quote: '' @ baseTopic @ '' - '' @ dateStr
        else if format = ''info'' then ''6 Insights: '' @ baseTopic @ '' - '' @ dateStr
        else if format = ''proverb'' then ''Daily Proverb: '' @ baseTopic @ '' - '' @ dateStr
        else if format = ''csv'' then baseTopic @ '' Data (CSV) - '' @ dateStr
        else if format = ''json'' then baseTopic @ '' Data (JSON) - '' @ dateStr
        else baseTopic @ '' Analysis - '' @ dateStr @ '' '' @ timeStr)"

definition baseUrl :: string where
  "baseUrl = ''https://coasagent.example.com''"

text \<open>
  \<open>RSSGenerator.createFeedForFormat\<close>; the last argument is the value of the
  \<open>new Date()\<close> taken at its start.
\<close>

definition createFeedForFormat ::
  "string \<Rightarrow> string \<Rightarrow> AgentConfig \<Rightarrow> string \<Rightarrow> Date \<Rightarrow> RSSFeed" where
  "createFeedForFormat format cont config attribution ts =
    (let item = \<lparr> item_id = ''coasagent-'' @ format @ ''-'' @ number_toString (getTime ts),
                    title = generateItemTitle format config ts,
                    content = cont,
                    pubDate = ts,
                    category = format,
                    sourceAttribution = attribution,
                    link = Some (baseUrl @ ''/rss/'' @ format) \<rparr>
     in \<lparr> channel = \<lparr> ch_title = lookup_or formatTitles format ''COASAGENT - Unknown Format'',
                        ch_description = lookup_or formatDescriptions format ''AI-generated content'',
                        ch_category = format,
                        lastUpdated = ts,
                        generator = ''COASAGENT v1.0'',
                        ch_link = baseUrl @ ''/rss/'' @ format \<rparr>,
           items = [item] \<rparr>)"

text \<open>
  \<open>RSSFeedManager\<close>: the \<open>feeds\<close> map, as an association list in the insertion
  order of its keys (the order \<open>Map.forEach\<close> visits them). \<open>AList.update\<close> is
  \<open>Map.set\<close>: an existing key keeps its place, a new key goes to the end.
  \<open>maxItemsPerFeed\<close> is a private field that is never assigned after its initialiser.
\<close>

type_synonym RSSFeedManager = "(string \<times> RSSFeed) list"

definition maxItemsPerFeed :: nat where
  "maxItemsPerFeed = 50"

text \<open>
  \<open>addItem\<close>. \<open>ts\<close> is the \<open>new Date()\<close> of \<open>createFeedForFormat\<close>,
  \<open>now\<close> the later \<open>new Date()\<close> stored in \<open>lastUpdated\<close>.
\<close>

definition addItem ::
  "RSSFeedManager \<Rightarrow> string \<Rightarrow> string \<Rightarrow> AgentConfig \<Rightarrow> string \<Rightarrow> Date \<Rightarrow> Date \<Rightarrow> RSSFeedManager" where
  "addItem M format cont config attribution ts now =
    (let newFeed = createFeedForFormat format cont config attribution ts
     in case map_of M format of
          Some existingFeed \<Rightarrow>
            (let unshifted = (items newFeed ! 0) # items existingFeed;
                 limited = (if length unshifted > maxItemsPerFeed
                            then take maxItemsPerFeed unshifted else unshifted)
             in AList.update format
                  (existingFeed\<lparr> channel := (channel existingFeed)\<lparr> lastUpdated := now \<rparr>,
                                 items := limited \<rparr>) M)
        | None \<Rightarrow> AList.update format newFeed M)"

definition getFeed :: "RSSFeedManager \<Rightarrow> string \<Rightarrow> RSSFeed option" where
  "getFeed M format = map_of M format"

text \<open>The items stored under a category (none when the category has no feed).\<close>

definition feedItems :: "RSSFeedManager \<Rightarrow> string \<Rightarrow> RSSItem list" where
  "feedItems M format = (case getFeed M format of None \<Rightarrow> [] | Some feed \<Rightarrow> items feed)"

text \<open>\<open>getLatestItems\<close>: \<open>allItems\<close> is the array filled by the nested \<open>forEach\<close>.\<close>

definition allItems :: "RSSFeedManager \<Rightarrow> (string \<times> RSSItem) list" where
  "allItems M = concat (map (\<lambda>(format, feed). map (\<lambda>item. (format, item)) (items feed)) M)"

definition getAllFormats :: "RSSFeedManager \<Rightarrow> string list" where
  "getAllFormats M = map fst M"

text \<open>
  \<open>xs.slice(0, end)\<close> for an integral \<open>end\<close>: a negative one counts from
  the end of the array, and the bounds are clamped to the array.
\<close>

definition slice0 :: "'a list \<Rightarrow> int \<Rightarrow> 'a list" where
  "slice0 xs fin =
    (let len = int (length xs);
         final = (if fin < 0 then max (len + fin) 0 else min fin len)
     in take (nat final) xs)"

text \<open>
  \<open>Array.prototype.sort\<close> is a stable sort; with the comparator
  \<open>b.pubDate.getTime() - a.pubDate.getTime()\<close> it sorts by descending time value,
  which is ascending order of the negated time.
\<close>

definition getLatestItems :: "RSSFeedManager \<Rightarrow> int \<Rightarrow> (string \<times> RSSItem) list" where
  "getLatestItems M limit =
    slice0 (sort_key (\<lambda>e. - getTime (pubDate (snd e))) (allItems M)) limit"

text \<open>
  \<open>clearOldItems\<close>: \<open>now\<close> is the value of \<open>Date.now()\<close>;
  \<open>cutoffTime\<close> is the date constructed from the number
  \<open>now - maxAgeHours * 60 * 60 * 1000\<close>, and every feed keeps the items whose date
  compares greater than it. For an integral \<open>maxAgeHours\<close> and a clock reading of at
  most \<open>maxSafeInteger - maxTimeValue\<close> in absolute value (any date before the year
  13000), the cutoff computed on doubles is the one computed here: either both are out of
  the range of a \<open>Date\<close>, or both are the same integer.
\<close>

definition clearOldItems :: "RSSFeedManager \<Rightarrow> int \<Rightarrow> int \<Rightarrow> RSSFeedManager" where
  "clearOldItems M maxAgeHours now =
    (let cutoffTime = newDate (now - maxAgeHours * 60 * 60 * 1000)
     in map (\<lambda>(format, feed).
              (format, feed\<lparr> items := filter (\<lambda>item. date_gt (getTime (pubDate item)) cutoffTime) (items feed) \<rparr>)) M)"

text \<open>A recorded \<open>addItem\<close> call, and the store after a sequence of calls.\<close>

record AddCall =
  call_format :: string
  call_content :: string
  call_config :: AgentConfig
  call_attribution :: string
  call_ts :: Date
  call_now :: Date

definition addCall :: "RSSFeedManager \<Rightarrow> AddCall \<Rightarrow> RSSFeedManager" where
  "addCall M k = addItem M (call_format k) (call_content k) (call_config k)
                   (call_attribution k) (call_ts k) (call_now k)"

definition addCalls :: "RSSFeedManager \<Rightarrow> AddCall list \<Rightarrow> RSSFeedManager" where
  "addCalls M ks = foldl addCall M ks"

text \<open>The item an \<open>addItem\<close> call creates.\<close>

definition callItem :: "AddCall \<Rightarrow> RSSItem" where
  "callItem k = items (createFeedForFormat (call_format k) (call_content k) (call_config k)
                        (call_attribution k) (call_ts k)) ! 0"

section \<open>Resilient client: \<open>AIClient\<close>\<close>

text \<open>\<open>String.prototype.includes\<close>: the second string occurs somewhere in the first.\<close>

fun str_includes :: "string \<Rightarrow> string \<Rightarrow> bool" where
  "str_includes [] sub = (sub = [])"
| "str_includes (c # cs) sub = (prefix sub (c # cs) \<or> str_includes cs sub)"

text \<open>
  The client's fields. \<open>models\<close> is never assigned after its initialiser (see
  \<open>newAIClient\<close>); \<open>rateLimitCooldown\<close> is a plain object used as a map from
  model names to expiry times, kept in the insertion order of its keys.
\<close>

record AIClient =
  models :: "string list"
  currentModelIndex :: nat
  rateLimitCooldown :: "(string \<times> int) list"

definition newAIClient :: AIClient where
  "newAIClient = \<lparr> models = [''gemini-2.0-flash-exp'', ''gemini-1.5-pro'', ''gemini-1.5-flash''],
                    currentModelIndex = 0,
                    rateLimitCooldown = [] \<rparr>"

text \<open>
  What one pass through the loop of \<open>generateResponse\<close> reads from outside the
  client: the clock before the call (\<open>Date.now()\<close> in the cooldown test), what the
  backend does when called for a model with a prompt (\<open>geminiClient.generateContent\<close>
  when a Gemini client is configured, \<open>makeAPICall\<close> otherwise), and the clock after
  the call (\<open>Date.now()\<close> in \<open>noRecentRateLimits\<close> or in the \<open>catch\<close>
  block). The call is taken to settle: \<open>Inr\<close> is its response, \<open>Inl\<close> what the
  \<open>catch\<close> block can read of the value it rejects with, namely \<open>Some\<close> of its
  \<open>message\<close> string, or \<open>None\<close> when the value has no message string (then
  \<open>error.message.includes\<close> throws a \<open>TypeError\<close> inside the \<open>catch\<close>
  block). A message that is no string but still answers \<open>includes\<close> acts like a
  string on which the two tests give the same answers.
\<close>

record Attempt =
  now_before :: int
  respond :: "string \<Rightarrow> string \<Rightarrow> string option + string"
  now_after :: int

text \<open>
  What a pass did: skipped a model in cooldown, called it and failed (with the message),
  called it and succeeded (with the response), or called it and threw out of the
  \<open>catch\<close> block.
\<close>

datatype attempt_event =
  Skipped string
| Failed string string
| Succeeded string string
| Threw string




datatype generate_error = AllModelsExhausted | TypeError

text \<open>\<open>this.models[this.currentModelIndex]\<close>; out of range the read gives \<open>undefined\<close>.\<close>

definition getCurrentModel :: "AIClient \<Rightarrow> string" where
  "getCurrentModel c =
    (if currentModelIndex c < length (models c) then models c ! currentModelIndex c else ''undefined'')"

definition downgradeModel :: "AIClient \<Rightarrow> AIClient" where
  "downgradeModel c =
    (if int (currentModelIndex c) < int (length (models c)) - 1
     then c\<lparr> currentModelIndex := currentModelIndex c + 1 \<rparr> else c)"

definition noRecentRateLimits :: "AIClient \<Rightarrow> int \<Rightarrow> bool" where
  "noRecentRateLimits c now =
    (\<not> list_ex (\<lambda>cooldownTime. now < cooldownTime) (map snd (rateLimitCooldown c)))"

definition upgradeModelIfPossible :: "AIClient \<Rightarrow> int \<Rightarrow> AIClient" where
  "upgradeModelIfPossible c now =
    (if currentModelIndex c > 0 \<and> noRecentRateLimits c now
     then c\<lparr> currentModelIndex := currentModelIndex c - 1 \<rparr> else c)"

text \<open>
  \<open>this.rateLimitCooldown[model] && Date.now() < this.rateLimitCooldown[model]\<close>: an
  absent entry and a stored \<open>0\<close> are both falsy.
\<close>

definition inCooldown :: "AIClient \<Rightarrow> string \<Rightarrow> int \<Rightarrow> bool" where
  "inCooldown c model now =
    (case map_of (rateLimitCooldown c) model of
       None \<Rightarrow> False
     | Some cooldownTime \<Rightarrow> cooldownTime \<noteq> 0 \<and> now < cooldownTime)"

definition isRateLimit :: "string \<Rightarrow> bool" where
  "isRateLimit message = (str_includes message ''rate_limit'' \<or> str_includes message ''quota'')"

text \<open>
  The body of the \<open>while\<close> loop: one attempt. A rejection without a message string
  leaves the \<open>catch\<close> block by the \<open>TypeError\<close> before the cooldown is set
  and before \<open>downgradeModel\<close>.
\<close>

definition attemptOnce :: "Attempt \<Rightarrow> string \<Rightarrow> AIClient \<Rightarrow> AIClient \<times> attempt_event" where
  "attemptOnce a prompt c =
    (let model = getCurrentModel c
     in if inCooldown c model (now_before a) then (downgradeModel c, Skipped model)
        else case respond a model prompt of
               Inr response \<Rightarrow> (upgradeModelIfPossible c (now_after a), Succeeded model response)
             | Inl None \<Rightarrow> (c, Threw model)
             | Inl (Some message) \<Rightarrow>
                 (let c1 = (if isRateLimit message
                            then c\<lparr> rateLimitCooldown :=
                                      AList.update model (now_after a + 5 * 60 * 1000) (rateLimitCooldown c) \<rparr>
                            else c)
                  in (downgradeModel c1, Failed model message)))"

text \<open>
  The loop of \<open>generateResponse\<close>. \<open>env k\<close> is what attempt number \<open>k\<close> meets;
  \<open>events\<close> collects what the attempts did. The result is the client afterwards, the
  response or the error the call throws, and the events.
\<close>

function generateLoop ::
  "(nat \<Rightarrow> Attempt) \<Rightarrow> string \<Rightarrow> nat \<Rightarrow> nat \<Rightarrow> AIClient \<Rightarrow> attempt_event list
     \<Rightarrow> AIClient \<times> (generate_error + string) \<times> attempt_event list" where
  "generateLoop env prompt maxRetries attempts c events =
    (if attempts < maxRetries
     then (case attemptOnce (env attempts) prompt c of
             (c', Succeeded model response) \<Rightarrow> (c', Inr response, events @ [Succeeded model response])
           | (c', Threw model) \<Rightarrow> (c', Inl TypeError, events @ [Threw model])
           | (c', e) \<Rightarrow> generateLoop env prompt maxRetries (attempts + 1) c' (events @ [e]))
     else (c, Inl AllModelsExhausted, events))"
  by pat_completeness auto

termination
  by (relation "measure (\<lambda>(env, prompt, maxRetries, attempts, c, events). maxRetries - attempts)") auto

declare generateLoop.simps [simp del]

definition generateResponse ::
  "(nat \<Rightarrow> Attempt) \<Rightarrow> string \<Rightarrow> nat \<Rightarrow> AIClient
     \<Rightarrow> AIClient \<times> (generate_error + string) \<times> attempt_event list" where
  "generateResponse env prompt maxRetries c = generateLoop env prompt maxRetries 0 c []"






section \<open>Instance scheduler: \<open>InstanceManager\<close>\<close>

datatype Status = Running | Stopped | Error

record AgentInstance =
  inst_id :: string
  config :: AgentConfig
  status :: Status
  lastUpdate :: Date
  cronJob :: "nat option"

text \<open>
  The state the scheduler works on: the \<open>instances\<close> map (in insertion order), the
  module-level \<open>rssManager\<close>, and the timers of the JavaScript runtime, namely the
  armed \<open>setInterval\<close> timers (handle and the instance whose cycle they run), the
  pending \<open>setTimeout\<close> one-shots, and the next handle to hand out.
\<close>

record InstanceManager =
  instances :: "(string \<times> AgentInstance) list"
  rssManager :: RSSFeedManager
  intervals :: "(nat \<times> string) list"
  timeouts :: "string list"
  nextHandle :: nat

definition newInstanceManager :: InstanceManager where
  "newInstanceManager =
     \<lparr> instances = [], rssManager = [], intervals = [], timeouts = [], nextHandle = 1 \<rparr>"

text \<open>
  \<open>generateInstanceId\<close>: \<open>rnd\<close> is the random base-36 suffix.
  \<open>createInstance\<close> stores \<open>{ ...config }\<close>, a shallow copy: its nested objects
  stay shared with the caller's configuration. The operations modelled here never write
  to a configuration, so they cannot observe the sharing.
\<close>

definition generateInstanceId :: "int \<Rightarrow> string \<Rightarrow> string" where
  "generateInstanceId now rnd = ''agent-'' @ number_toString now @ ''-'' @ rnd"

definition createInstance ::
  "InstanceManager \<Rightarrow> AgentConfig \<Rightarrow> int \<Rightarrow> string \<Rightarrow> Date \<Rightarrow> InstanceManager \<times> string" where
  "createInstance S cfg now rnd created =
    (let instanceId = generateInstanceId now rnd;
         instance = \<lparr> inst_id = instanceId, config = cfg, status = Stopped,
                       lastUpdate = created, cronJob = None \<rparr>
     in (S\<lparr> instances := AList.update instanceId instance (instances S) \<rparr>, instanceId))"

text \<open>
  \<open>startInstance\<close>. \<open>armed\<close> tells whether \<open>setInterval\<close> returned a timer
  (\<open>True\<close>) or threw, which takes the \<open>catch\<close> branch; \<open>now\<close> is the
  \<open>new Date()\<close> stored in \<open>lastUpdate\<close>.
\<close>

definition startInstance :: "InstanceManager \<Rightarrow> string \<Rightarrow> bool \<Rightarrow> Date \<Rightarrow> InstanceManager \<times> bool" where
  "startInstance S instanceId armed now =
    (case map_of (instances S) instanceId of
       None \<Rightarrow> (S, False)
     | Some instance \<Rightarrow>
         if status instance = Running then (S, True)
         else if armed
         then (S\<lparr> instances := AList.update instanceId
                       (instance\<lparr> cronJob := Some (nextHandle S), status := Running, lastUpdate := now \<rparr>)
                       (instances S),
                   intervals := intervals S @ [(nextHandle S, instanceId)],
                   timeouts := timeouts S @ [instanceId],
                   nextHandle := nextHandle S + 1 \<rparr>, True)
         else (S\<lparr> instances := AList.update instanceId (instance\<lparr> status := Error \<rparr>) (instances S) \<rparr>,
               False))"

definition clearInterval :: "nat \<Rightarrow> (nat \<times> string) list \<Rightarrow> (nat \<times> string) list" where
  "clearInterval h ts = filter (\<lambda>(h', instanceId). h' \<noteq> h) ts"

definition stopInstance :: "InstanceManager \<Rightarrow> string \<Rightarrow> Date \<Rightarrow> InstanceManager \<times> bool" where
  "stopInstance S instanceId now =
    (case map_of (instances S) instanceId of
       None \<Rightarrow> (S, False)
     | Some instance \<Rightarrow>
         (S\<lparr> instances := AList.update instanceId
                  (instance\<lparr> cronJob := None, status := Stopped, lastUpdate := now \<rparr>) (instances S),
              intervals := (case cronJob instance of
                              Some h \<Rightarrow> clearInterval h (intervals S)
                            | None \<Rightarrow> intervals S) \<rparr>, True))"

definition deleteInstance :: "InstanceManager \<Rightarrow> string \<Rightarrow> Date \<Rightarrow> InstanceManager \<times> bool" where
  "deleteInstance S instanceId now =
    (case map_of (instances S) instanceId of
       None \<Rightarrow> (S, False)
     | Some instance \<Rightarrow>
         (let S1 = fst (stopInstance S instanceId now)
          in (S1\<lparr> instances := AList.delete instanceId (instances S1) \<rparr>, True)))"

definition getInstance :: "InstanceManager \<Rightarrow> string \<Rightarrow> AgentInstance option" where
  "getInstance S instanceId = map_of (instances S) instanceId"

text \<open>
  \<open>updateInstanceConfig\<close>: \<open>stopNow\<close>, \<open>now\<close> and \<open>startNow\<close> are the three
  \<open>new Date()\<close> values (in \<open>stopInstance\<close>, in the update, in \<open>startInstance\<close>).
\<close>

definition updateInstanceConfig ::
  "InstanceManager \<Rightarrow> string \<Rightarrow> AgentConfig \<Rightarrow> Date \<Rightarrow> Date \<Rightarrow> bool \<Rightarrow> Date \<Rightarrow> InstanceManager \<times> bool" where
  "updateInstanceConfig S instanceId newConfig stopNow now armed startNow =
    (case map_of (instances S) instanceId of
       None \<Rightarrow> (S, False)
     | Some instance \<Rightarrow>
         (let wasRunning = (status instance = Running);
              S1 = (if wasRunning then fst (stopInstance S instanceId stopNow) else S);
              S2 = (case map_of (instances S1) instanceId of
                      None \<Rightarrow> S1
                    | Some i1 \<Rightarrow> S1\<lparr> instances := AList.update instanceId
                                        (i1\<lparr> config := newConfig, lastUpdate := now \<rparr>) (instances S1) \<rparr>);
              S3 = (if wasRunning then fst (startInstance S2 instanceId armed startNow) else S2)
          in (S3, True)))"

text \<open>
  \<open>[...new Set(xs)]\<close>: the distinct elements in the order of their first occurrence.
\<close>

definition newSet :: "'a list \<Rightarrow> 'a list" where
  "newSet xs = foldl (\<lambda>acc x. if x \<in> set acc then acc else acc @ [x]) [] xs"

text \<open>\<open>Array.prototype.join\<close>.\<close>

fun join :: "string list \<Rightarrow> string \<Rightarrow> string" where
  "join [] sep = []"
| "join [x] sep = x"
| "join (x # y # ys) sep = x @ sep @ join (y # ys) sep"

text \<open>The \<open>sourceAttribution\<close> string computed in \<open>executeAgentCycle\<close>.\<close>

definition sourceAttribution_of :: "ProcessedContent list \<Rightarrow> string" where
  "sourceAttribution_of collectedData =
    (let sources = newSet (map source collectedData)
     in ''Generated from '' @ number_toString (int (length sources)) @ '' sources: '' @
        join (take 3 sources) '', '' @ (if length sources > 3 then ''...'' else ''''))"

text \<open>
  What one cycle reads from outside the scheduler: the collector's and the processor's
  outcomes (\<open>Inl\<close> the message of a thrown \<open>Error\<close>) and the \<open>new Date()\<close> values,
  in the order the source takes them.
\<close>

record CycleEnv =
  collectAll :: "AgentConfig \<Rightarrow> string + ProcessedContent list"
  processContent :: "AgentConfig \<Rightarrow> ProcessedContent list \<Rightarrow> string + string"
  item_now :: Date
  feed_now :: Date
  done_now :: Date
  error_now :: Date
  stop_now :: Date

text \<open>
  The \<open>catch\<close> block of \<open>executeAgentCycle\<close>: it stores status \<open>error\<close> and
  then calls \<open>stopInstance\<close>.
\<close>

definition cycleCatch :: "InstanceManager \<Rightarrow> string \<Rightarrow> AgentInstance \<Rightarrow> CycleEnv \<Rightarrow> InstanceManager" where
  "cycleCatch S instanceId instance env =
    (let S1 = S\<lparr> instances := AList.update instanceId
                     (instance\<lparr> status := Error, lastUpdate := error_now env \<rparr>) (instances S) \<rparr>
     in fst (stopInstance S1 instanceId (stop_now env)))"

text \<open>
  \<open>executeAgentCycle\<close>, run as one step (nothing else touches the state while the
  cycle awaits its collaborators).
\<close>

definition executeAgentCycle :: "InstanceManager \<Rightarrow> string \<Rightarrow> CycleEnv \<Rightarrow> InstanceManager" where
  "executeAgentCycle S instanceId env =
    (case map_of (instances S) instanceId of
       None \<Rightarrow> S
     | Some instance \<Rightarrow>
         if status instance \<noteq> Running then S
         else case collectAll env (config instance) of
                Inl message \<Rightarrow> cycleCatch S instanceId instance env
              | Inr collectedData \<Rightarrow>
                  if length collectedData = 0 then S
                  else case processContent env (config instance) collectedData of
                         Inl message \<Rightarrow> cycleCatch S instanceId instance env
                       | Inr processed \<Rightarrow>
                           S\<lparr> rssManager := addItem (rssManager S) (outputFormat (config instance))
                                                processed (config instance)
                                                (sourceAttribution_of collectedData)
                                                (item_now env) (feed_now env),
                              instances := AList.update instanceId
                                             (instance\<lparr> lastUpdate := done_now env \<rparr>) (instances S) \<rparr>)"

text \<open>
  The runtime firing an armed interval timer runs the cycle of its instance; a handle
  that has been cleared fires nothing.
\<close>

definition intervalFires :: "InstanceManager \<Rightarrow> nat \<Rightarrow> CycleEnv \<Rightarrow> InstanceManager" where
  "intervalFires S h env =
    (case map_of (intervals S) h of
       None \<Rightarrow> S
     | Some instanceId \<Rightarrow> executeAgentCycle S instanceId env)"

section \<open>Example data\<close>

text \<open>
  Concrete values on which the theorems below are instantiated: a date, a configuration,
  \<open>addItem\<close> calls, three environments of the client, collected content, a cycle
  environment, and a scheduler with one instance that was created and then started (with
  the timer armed, and with \<open>setInterval\<close> failing).
\<close>

definition ex_date :: "int \<Rightarrow> Date" where
  "ex_date t = \<lparr> getTime = t, toLocaleDateString = ''11/2/2026'', toLocaleTimeString = ''7:24:00 PM'' \<rparr>"

definition ex_config :: AgentConfig where
  "ex_config = \<lparr> focusTopic = ''local news'', outputFormat = ''normal'' \<rparr>"

definition ex_call :: "string \<Rightarrow> string \<Rightarrow> int \<Rightarrow> AddCall" where
  "ex_call format cont t =
     \<lparr> call_format = format, call_content = cont, call_config = ex_config,
       call_attribution = ''Generated from 1 sources: Twitter'', call_ts = ex_date t, call_now = ex_date t \<rparr>"

definition ex_ties :: "AddCall list" where
  "ex_ties = [ex_call ''question'' ''q1'' 1000, ex_call ''normal'' ''n1'' 1000, ex_call ''question'' ''q2'' 1000]"


definition ex_env_down :: "nat \<Rightarrow> Attempt" where
  "ex_env_down k =
     \<lparr> now_before = 1000 + int k, respond = (\<lambda>model prompt. Inl (Some ''api_error: Service temporarily unavailable'')),
       now_after = 2000 + int k \<rparr>"


definition ex_item :: "string \<Rightarrow> ProcessedContent" where
  "ex_item src = \<lparr> pc_id = ''1'', source = src, timestamp = ex_date 900,
                   rawContent = ''raw text'', processedContent = ''processed text'' \<rparr>"

definition ex_data :: "ProcessedContent list" where
  "ex_data = map ex_item [''Twitter'', ''YouTube'', ''Twitter'', ''Reddit: r/news'', ''Web: https://example.com'']"

definition ex_cycle_env :: "(string + ProcessedContent list) \<Rightarrow> (string + string) \<Rightarrow> CycleEnv" where
  "ex_cycle_env collected processed =
     \<lparr> collectAll = (\<lambda>cfg. collected), processContent = (\<lambda>cfg d. processed),
       item_now = ex_date 5000, feed_now = ex_date 5001, done_now = ex_date 5002,
       error_now = ex_date 5003, stop_now = ex_date 5004 \<rparr>"

definition ex_id :: string where
  "ex_id = ''agent-1000-k3j9x2m1q''"

definition ex_created :: InstanceManager where
  "ex_created = fst (createInstance newInstanceManager ex_config 1000 ''k3j9x2m1q'' (ex_date 1000))"

definition ex_running :: InstanceManager where
  "ex_running = fst (startInstance ex_created ex_id True (ex_date 1001))"

definition ex_errored :: InstanceManager where
  "ex_errored = fst (startInstance ex_created ex_id False (ex_date 1001))"

section \<open>Number formatting loses nothing\<close>

lemma digit_cases:
  "d < 10 \<Longrightarrow> d = 0 \<or> d = 1 \<or> d = 2 \<or> d = 3 \<or> d = 4 \<or> d = 5 \<or> d = 6 \<or> d = 7 \<or> d = 8 \<or> d = (9::nat)"
  by arith

lemma digit_val_digit_char: "d < 10 \<Longrightarrow> digit_val (digit_char d) = d"
  by (drule digit_cases) (elim disjE; simp add: digit_val_def digit_char_def)

lemma parse_nat_snoc: "parse_nat (s @ [c]) = 10 * parse_nat s + digit_val c"
  by (simp add: parse_nat_def)

lemma parse_nat_show_nat: "parse_nat (show_nat n) = n"
proof (induction n rule: show_nat.induct)
  case (1 n)
  show ?case
  proof (cases "n < 10")
    case True
    then show ?thesis by (subst show_nat.simps) (simp add: parse_nat_def digit_val_digit_char)
  next
    case False
    have "show_nat n = show_nat (n div 10) @ [digit_char (n mod 10)]"
      using False by (subst show_nat.simps) simp
    then have "parse_nat (show_nat n) = 10 * parse_nat (show_nat (n div 10)) + digit_val (digit_char (n mod 10))"
      by (simp only: parse_nat_snoc)
    also have "\<dots> = 10 * (n div 10) + n mod 10"
      using False "1.IH" by (simp add: digit_val_digit_char)
    finally show ?thesis by simp
  qed
qed

lemma show_nat_not_Nil: "show_nat n \<noteq> []"
  by (subst show_nat.simps) simp

lemma digit_char_not_minus: "d < 10 \<Longrightarrow> digit_char d \<noteq> CHR ''-''"
  by (drule digit_cases) (elim disjE; simp add: digit_char_def)

lemma hd_show_nat: "hd (show_nat n) \<noteq> CHR ''-''"
proof (induction n rule: show_nat.induct)
  case (1 n)
  show ?case
  proof (cases "n < 10")
    case True
    then show ?thesis by (subst show_nat.simps) (simp add: digit_char_not_minus)
  next
    case False
    have "show_nat n = show_nat (n div 10) @ [digit_char (n mod 10)]"
      using False by (subst show_nat.simps) simp
    then have "hd (show_nat n) = hd (show_nat (n div 10))"
      by (simp add: show_nat_not_Nil)
    with False "1.IH" show ?thesis by simp
  qed
qed

lemma parse_int_number_toString: "parse_int (number_toString i) = i"
proof (cases "i < 0")
  case True
  then show ?thesis
    by (simp add: parse_int_def number_toString_def parse_nat_show_nat)
next
  case False
  obtain c cs where s: "show_nat (nat i) = c # cs"
    using show_nat_not_Nil [of "nat i"] by (cases "show_nat (nat i)") auto
  have "c \<noteq> CHR ''-''"
    using hd_show_nat [of "nat i"] s by simp
  then have "parse_int (show_nat (nat i)) = int (parse_nat (show_nat (nat i)))"
    by (simp add: parse_int_def s)
  with False show ?thesis
    by (simp add: number_toString_def parse_nat_show_nat)
qed

lemma number_toString_inj: "number_toString i = number_toString j \<Longrightarrow> i = j"
  by (metis parse_int_number_toString)

section \<open>Feed store: size bound and order\<close>

lemma take_Cons_take: "take n (x # take n xs) = take n (x # xs)"
  by (cases n) simp_all

lemma feedItems_addItem:
  "feedItems (addItem M format cont cfg attribution ts now) c =
     (if c = format
      then take maxItemsPerFeed
             ((items (createFeedForFormat format cont cfg attribution ts) ! 0) # feedItems M format)
      else feedItems M c)"
proof (cases "map_of M format")
  case None
  then show ?thesis
    by (simp add: feedItems_def getFeed_def addItem_def update_conv' createFeedForFormat_def
        maxItemsPerFeed_def)
next
  case (Some f)
  then show ?thesis
    by (simp add: feedItems_def getFeed_def addItem_def update_conv' Let_def)
qed

lemma feedItems_addCall:
  "feedItems (addCall M k) c =
     (if c = call_format k then take maxItemsPerFeed (callItem k # feedItems M c) else feedItems M c)"
  by (simp add: addCall_def callItem_def feedItems_addItem)

lemma addCalls_snoc: "addCalls M (ks @ [k]) = addCall (addCalls M ks) k"
  by (simp add: addCalls_def)

lemma length_feedItems_addCalls:
  "length (feedItems M c) \<le> maxItemsPerFeed \<Longrightarrow> length (feedItems (addCalls M ks) c) \<le> maxItemsPerFeed"
  by (induction ks rule: rev_induct) (simp_all add: addCalls_def feedItems_addCall)

lemma take_feedItems_addCalls:
  "take maxItemsPerFeed (feedItems (addCalls M ks) c) =
     take maxItemsPerFeed (rev (map callItem (filter (\<lambda>k. call_format k = c) ks)) @ feedItems M c)"
proof (induction ks rule: rev_induct)
  case Nil
  then show ?case by (simp add: addCalls_def)
next
  case (snoc k ks)
  let ?old = "rev (map callItem (filter (\<lambda>k. call_format k = c) ks)) @ feedItems M c"
  show ?case
  proof (cases "call_format k = c")
    case False
    with snoc show ?thesis
      by (simp add: addCalls_snoc feedItems_addCall)
  next
    case True
    have "take maxItemsPerFeed (feedItems (addCalls M (ks @ [k])) c) =
            take maxItemsPerFeed (callItem k # feedItems (addCalls M ks) c)"
      using True by (simp add: addCalls_snoc feedItems_addCall)
    also have "\<dots> = take maxItemsPerFeed (callItem k # take maxItemsPerFeed (feedItems (addCalls M ks) c))"
      by (simp only: take_Cons_take)
    also have "\<dots> = take maxItemsPerFeed (callItem k # take maxItemsPerFeed ?old)"
      by (simp only: snoc.IH)
    also have "\<dots> = take maxItemsPerFeed (callItem k # ?old)"
      by (simp only: take_Cons_take)
    also have "callItem k # ?old =
        rev (map callItem (filter (\<lambda>k. call_format k = c) (ks @ [k]))) @ feedItems M c"
      using True by simp
    finally show ?thesis .
  qed
qed

lemma feedItems_addCalls_empty:
  "feedItems (addCalls [] ks) c =
     take maxItemsPerFeed (rev (map callItem (filter (\<lambda>k. call_format k = c) ks)))"
proof -
  have e: "feedItems [] c = []"
    by (simp add: feedItems_def getFeed_def)
  have len: "length (feedItems (addCalls [] ks) c) \<le> maxItemsPerFeed"
    by (rule length_feedItems_addCalls) (simp add: e)
  have "feedItems (addCalls [] ks) c = take maxItemsPerFeed (feedItems (addCalls [] ks) c)"
    using len by simp
  also have "\<dots> = take maxItemsPerFeed (rev (map callItem (filter (\<lambda>k. call_format k = c) ks)))"
    by (simp only: take_feedItems_addCalls e append_Nil2)
  finally show ?thesis .
qed

text \<open>
  C2. Starting from the empty store, after any sequence of \<open>addItem\<close> calls (to any
  categories, in any interleaving) the feed of a category \<open>c\<close> holds at most
  \<open>maxItemsPerFeed\<close> = 50 items, and they are the most recently appended items of
  \<open>c\<close>, the newest first: the items the calls for \<open>c\<close> created, in reverse
  order of the calls, cut after \<open>maxItemsPerFeed\<close> entries (each new item is put in
  front, the oldest fall off the end). Since this holds for every sequence of calls, it
  holds after each append.
\<close>

theorem addItem_bounded_newest_first:
  "length (feedItems (addCalls [] ks) c) \<le> maxItemsPerFeed \<and>
   maxItemsPerFeed = 50 \<and>
   feedItems (addCalls [] ks) c =
     take maxItemsPerFeed (rev (map callItem (filter (\<lambda>k. call_format k = c) ks)))"
proof -
  have len: "length (feedItems (addCalls [] ks) c) \<le> maxItemsPerFeed"
    by (rule length_feedItems_addCalls) (simp add: feedItems_def getFeed_def)
  have eq: "feedItems (addCalls [] ks) c =
     take maxItemsPerFeed (rev (map callItem (filter (\<lambda>k. call_format k = c) ks)))"
    by (rule feedItems_addCalls_empty)
  show ?thesis
    using len eq by (simp add: maxItemsPerFeed_def)
qed

section \<open>Feed store: purging old items\<close>

lemma feedItems_clearOldItems:
  "feedItems (clearOldItems M h now) c =
     filter (\<lambda>item. date_gt (getTime (pubDate item)) (newDate (now - h * 60 * 60 * 1000))) (feedItems M c)"
  by (cases "map_of M c") (simp_all add: feedItems_def getFeed_def clearOldItems_def map_of_map)

lemma clearOldItems_twice: "clearOldItems (clearOldItems M h now) h now = clearOldItems M h now"
  by (simp add: clearOldItems_def Let_def split_beta o_def)

lemma getAllFormats_clearOldItems: "getAllFormats (clearOldItems M h now) = getAllFormats M"
  by (simp add: getAllFormats_def clearOldItems_def Let_def split_beta o_def)

lemma feedItems_one_call: "feedItems (addCalls [] [k]) (call_format k) = [callItem k]"
  by (simp add: feedItems_addCalls_empty maxItemsPerFeed_def)

lemma feedItems_two_calls:
  "call_format k = c \<Longrightarrow> call_format l = c \<Longrightarrow> feedItems (addCalls [] [k, l]) c = [callItem l, callItem k]"
  by (simp add: feedItems_addCalls_empty maxItemsPerFeed_def)

text \<open>
  C7, as the code has it. Let the clock reading be at most
  \<open>maxSafeInteger - maxTimeValue\<close> in absolute value (a date before the year 13000)
  and \<open>maxAgeHours\<close> any integer. When the cutoff
  \<open>now - maxAgeHours * 60 * 60 * 1000\<close> is within the range of a \<open>Date\<close> (at most
  8.64e15 ms in absolute value), \<open>clearOldItems\<close> keeps, in every feed and in their
  order, exactly the items whose publish time is strictly later than the cutoff: it removes
  every item published at or before the cutoff, an item published exactly at the cutoff
  included. When the cutoff is out of that range the constructed date is invalid, every
  comparison with it is false, and every item is removed. No category is dropped, and a
  second call with the same arguments changes nothing.
\<close>

theorem clearOldItems_removes_up_to_cutoff:
  assumes "\<bar>now\<bar> \<le> maxSafeInteger - maxTimeValue"
  shows "feedItems (clearOldItems M h now) c =
           (if \<bar>now - h * 60 * 60 * 1000\<bar> \<le> maxTimeValue
            then filter (\<lambda>item. now - h * 60 * 60 * 1000 < getTime (pubDate item)) (feedItems M c)
            else []) \<and>
         getAllFormats (clearOldItems M h now) = getAllFormats M \<and>
         clearOldItems (clearOldItems M h now) h now = clearOldItems M h now"
  by (simp add: feedItems_clearOldItems clearOldItems_twice getAllFormats_clearOldItems
      newDate_def date_gt_def)

text \<open>
  The theorem at two items published at 1000 and 2000, purged at time 1000 with a window
  of 0 hours (the item at 2000 stays) and with a window of 3000000000 hours (the cutoff is
  no valid date, nothing stays).
\<close>

theorem clearOldItems_removes_up_to_cutoff_witness:
  "\<bar>1000\<bar> \<le> maxSafeInteger - maxTimeValue \<and>
   feedItems (addCalls [] [ex_call ''normal'' ''old'' 1000, ex_call ''normal'' ''new'' 2000]) ''normal''
     = [callItem (ex_call ''normal'' ''new'' 2000), callItem (ex_call ''normal'' ''old'' 1000)] \<and>
   feedItems (clearOldItems (addCalls [] [ex_call ''normal'' ''old'' 1000, ex_call ''normal'' ''new'' 2000]) 0 1000) ''normal''
     = [callItem (ex_call ''normal'' ''new'' 2000)] \<and>
   feedItems (clearOldItems (addCalls [] [ex_call ''normal'' ''old'' 1000, ex_call ''normal'' ''new'' 2000])
                3000000000 1000) ''normal''
     = []"
proof -
  let ?M = "addCalls [] [ex_call ''normal'' ''old'' 1000, ex_call ''normal'' ''new'' 2000]"
  have r: "\<bar>1000\<bar> \<le> maxSafeInteger - maxTimeValue"
    by (simp add: maxSafeInteger_def maxTimeValue_def)
  have f: "feedItems ?M ''normal''
     = [callItem (ex_call ''normal'' ''new'' 2000), callItem (ex_call ''normal'' ''old'' 1000)]"
    by (rule feedItems_two_calls) (simp_all add: ex_call_def)
  have t: "getTime (pubDate (callItem (ex_call ''normal'' ''new'' 2000))) = 2000"
    "getTime (pubDate (callItem (ex_call ''normal'' ''old'' 1000))) = 1000"
    by (simp_all add: callItem_def ex_call_def createFeedForFormat_def ex_date_def)
  show ?thesis
    using clearOldItems_removes_up_to_cutoff [OF r, of ?M 0 "''normal''"]
      clearOldItems_removes_up_to_cutoff [OF r, of ?M 3000000000 "''normal''"] r
    by (simp add: f t maxTimeValue_def)
qed

text \<open>
  C7 as stated fails at the boundary: an item published exactly at the cutoff (here
  published at 1000, purged with \<open>maxAgeHours = 0\<close> at time 1000) is not older than
  the cutoff, and is removed all the same.
\<close>

theorem clearOldItems_boundary_counterexample:
  "callItem (ex_call ''normal'' ''text'' 1000) \<in> set (feedItems (addCalls [] [ex_call ''normal'' ''text'' 1000]) ''normal'') \<and>
   \<not> getTime (pubDate (callItem (ex_call ''normal'' ''text'' 1000))) < 1000 - 0 * 60 * 60 * 1000 \<and>
   callItem (ex_call ''normal'' ''text'' 1000)
     \<notin> set (feedItems (clearOldItems (addCalls [] [ex_call ''normal'' ''text'' 1000]) 0 1000) ''normal'')"
proof -
  have f: "feedItems (addCalls [] [ex_call ''normal'' ''text'' 1000]) ''normal'' = [callItem (ex_call ''normal'' ''text'' 1000)]"
    using feedItems_one_call [of "ex_call ''normal'' ''text'' 1000"] by (simp add: ex_call_def)
  have t: "getTime (pubDate (callItem (ex_call ''normal'' ''text'' 1000))) = 1000"
    by (simp add: callItem_def ex_call_def createFeedForFormat_def ex_date_def)
  show ?thesis
    by (simp add: f t feedItems_clearOldItems newDate_def date_gt_def maxTimeValue_def)
qed

section \<open>Feed store: latest items\<close>

lemma feedItems_Cons_other:
  "f \<noteq> k \<Longrightarrow> feedItems ((k, v) # M) f = feedItems M f"
  by (simp add: feedItems_def getFeed_def)

lemma allItems_by_formats:
  "distinct (map fst M) \<Longrightarrow>
   allItems M = concat (map (\<lambda>f. map (Pair f) (feedItems M f)) (getAllFormats M))"
proof (induction M)
  case Nil
  then show ?case by (simp add: allItems_def getAllFormats_def)
next
  case (Cons p M)
  obtain k v where p: "p = (k, v)" by (cases p)
  from Cons.prems p have k: "k \<notin> set (map fst M)" and d: "distinct (map fst M)"
    by simp_all
  have ne: "map (Pair f) (feedItems ((k, v) # M) f) = map (Pair f) (feedItems M f)"
    if "f \<in> set (map fst M)" for f
  proof -
    from that k have "f \<noteq> k" by auto
    then show ?thesis by (simp add: feedItems_Cons_other)
  qed
  have same: "map (\<lambda>f. map (Pair f) (feedItems ((k, v) # M) f)) (map fst M) =
              map (\<lambda>f. map (Pair f) (feedItems M f)) (map fst M)"
    by (rule map_cong [OF refl]) (rule ne)
  have "allItems ((k, v) # M) = map (Pair k) (items v) @ allItems M"
    by (simp add: allItems_def)
  also have "\<dots> = map (Pair k) (items v) @ concat (map (\<lambda>f. map (Pair f) (feedItems M f)) (map fst M))"
    using Cons.IH [OF d] by (simp add: getAllFormats_def)
  also have "\<dots> = concat (map (\<lambda>f. map (Pair f) (feedItems ((k, v) # M) f)) (getAllFormats ((k, v) # M)))"
  proof -
    have h: "feedItems ((k, v) # M) k = items v"
      by (simp add: feedItems_def getFeed_def)
    show ?thesis
      by (simp only: getAllFormats_def list.map fst_conv concat.simps same h)
  qed
  finally show ?case by (simp add: p)
qed

lemma sorted_desc_sort_key:
  "sorted_wrt (\<lambda>a b. getTime (pubDate (snd a)) \<ge> getTime (pubDate (snd b)))
     (sort_key (\<lambda>e. - getTime (pubDate (snd e))) xs)"
proof -
  have "sorted (map (\<lambda>e. - getTime (pubDate (snd e))) (sort_key (\<lambda>e. - getTime (pubDate (snd e))) xs))"
    by (rule sorted_sort_key)
  then show ?thesis
    by (simp add: sorted_map sorted_wrt_iff_nth_less)
qed

lemma slice0_nonneg: "0 \<le> n \<Longrightarrow> slice0 xs n = take (nat n) xs"
  by (simp add: slice0_def Let_def min_def)

lemma slice0_neg: "n < 0 \<Longrightarrow> slice0 xs n = take (length xs - nat (- n)) xs"
proof -
  assume n: "n < 0"
  have "nat (max (int (length xs) + n) 0) = length xs - nat (- n)"
    using n by (simp add: max_def) linarith
  with n show ?thesis
    by (simp add: slice0_def Let_def)
qed

lemma slice0_take: "\<exists>k. slice0 xs n = take k xs"
  by (simp add: slice0_def Let_def) blast

text \<open>
  C6, as the code has it. In a store whose formats are distinct (the keys of a
  \<open>Map\<close>; every store built by appends is one), \<open>getLatestItems M N\<close> is cut from
  a list \<open>S\<close> that holds exactly the items of all categories, each paired with its
  format, sorted by publish timestamp, newest first. Items of equal timestamp stand in
  \<open>S\<close> in the order of the merged list, which goes through the formats in the order
  their feeds were created and through each feed from its newest item to its oldest; this
  is not the order in which the items were inserted. For \<open>N \<ge> 0\<close> the result is
  the first \<open>N\<close> entries of \<open>S\<close>, so it has at most \<open>N\<close> entries; for a
  negative \<open>N\<close> it is \<open>S\<close> without its last \<open>-N\<close> entries. In both cases the
  result is sorted newest first and has at most as many entries as there are stored
  items.
\<close>

theorem getLatestItems_sorted_stable_bounded:
  assumes "distinct (getAllFormats M)"
  shows "\<exists>S. (\<forall>t. filter (\<lambda>e. getTime (pubDate (snd e)) = t) S =
                  filter (\<lambda>e. getTime (pubDate (snd e)) = t)
                    (concat (map (\<lambda>f. map (Pair f) (feedItems M f)) (getAllFormats M)))) \<and>
             mset S = mset (concat (map (\<lambda>f. map (Pair f) (feedItems M f)) (getAllFormats M))) \<and>
             sorted_wrt (\<lambda>a b. getTime (pubDate (snd a)) \<ge> getTime (pubDate (snd b))) S \<and>
             (0 \<le> N \<longrightarrow> getLatestItems M N = take (nat N) S \<and> int (length (getLatestItems M N)) \<le> N) \<and>
             (N < 0 \<longrightarrow> getLatestItems M N = take (length S - nat (- N)) S) \<and>
             length (getLatestItems M N) \<le> (\<Sum>f \<leftarrow> getAllFormats M. length (feedItems M f)) \<and>
             sorted_wrt (\<lambda>a b. getTime (pubDate (snd a)) \<ge> getTime (pubDate (snd b))) (getLatestItems M N)"
proof -
  let ?A = "concat (map (\<lambda>f. map (Pair f) (feedItems M f)) (getAllFormats M))"
  let ?S = "sort_key (\<lambda>e. - getTime (pubDate (snd e))) (allItems M)"
  have a: "allItems M = ?A"
    using assms by (intro allItems_by_formats) (simp add: getAllFormats_def)
  have s: "sorted_wrt (\<lambda>a b. getTime (pubDate (snd a)) \<ge> getTime (pubDate (snd b))) ?S"
    by (rule sorted_desc_sort_key)
  have st: "filter (\<lambda>e. getTime (pubDate (snd e)) = t) ?S =
            filter (\<lambda>e. getTime (pubDate (snd e)) = t) ?A" for t
    using sort_key_stable [of "\<lambda>e. - getTime (pubDate (snd e))" "- t" "allItems M"] by (simp add: a)
  have m: "mset ?S = mset ?A"
    by (simp add: a)
  have g: "getLatestItems M N = slice0 ?S N"
    by (simp add: getLatestItems_def)
  have p: "0 \<le> N \<longrightarrow> getLatestItems M N = take (nat N) ?S \<and> int (length (getLatestItems M N)) \<le> N"
    by (auto simp: g slice0_nonneg min_def)
  have n: "N < 0 \<longrightarrow> getLatestItems M N = take (length ?S - nat (- N)) ?S"
    by (simp add: g slice0_neg)
  obtain k where k: "getLatestItems M N = take k ?S"
    using slice0_take [of ?S N] g by auto
  have "length ?A = (\<Sum>f \<leftarrow> getAllFormats M. length (feedItems M f))"
    by (simp add: length_concat o_def)
  then have l: "length (getLatestItems M N) \<le> (\<Sum>f \<leftarrow> getAllFormats M. length (feedItems M f))"
    by (simp add: k a)
  have r: "sorted_wrt (\<lambda>a b. getTime (pubDate (snd a)) \<ge> getTime (pubDate (snd b))) (getLatestItems M N)"
    unfolding k by (rule sorted_wrt_take) (rule s)
  from st m s p n l r show ?thesis by blast
qed

text \<open>
  Stores built by appends have distinct formats.
\<close>

lemma getAllFormats_addCall:
  "getAllFormats (addCall M k) =
     (if call_format k \<in> set (getAllFormats M) then getAllFormats M else getAllFormats M @ [call_format k])"
  by (cases "map_of M (call_format k)")
     (simp_all add: getAllFormats_def addCall_def addItem_def Let_def update_keys)

lemma distinct_getAllFormats_addCalls:
  "distinct (getAllFormats M) \<Longrightarrow> distinct (getAllFormats (addCalls M ks))"
  by (induction ks rule: rev_induct) (simp_all add: addCalls_def getAllFormats_addCall)

lemma getAllFormats_ex_ties: "getAllFormats (addCalls [] ex_ties) = [''question'', ''normal'']"
  by (simp add: addCalls_def ex_ties_def getAllFormats_addCall) (simp add: getAllFormats_def ex_call_def)

lemma feedItems_ex_ties:
  "feedItems (addCalls [] ex_ties) ''question'' =
     [callItem (ex_call ''question'' ''q2'' 1000), callItem (ex_call ''question'' ''q1'' 1000)]"
  "feedItems (addCalls [] ex_ties) ''normal'' = [callItem (ex_call ''normal'' ''n1'' 1000)]"
  by (simp_all add: feedItems_addCalls_empty maxItemsPerFeed_def ex_ties_def ex_call_def)

lemma allItems_ex_ties:
  "allItems (addCalls [] ex_ties) =
     [(''question'', callItem (ex_call ''question'' ''q2'' 1000)),
      (''question'', callItem (ex_call ''question'' ''q1'' 1000)),
      (''normal'', callItem (ex_call ''normal'' ''n1'' 1000))]"
proof -
  have "distinct (map fst (addCalls [] ex_ties))"
    using getAllFormats_ex_ties by (simp add: getAllFormats_def)
  then show ?thesis
    by (simp add: allItems_by_formats getAllFormats_ex_ties feedItems_ex_ties)
qed

lemma pubDate_ex_call: "getTime (pubDate (callItem (ex_call f x t))) = t"
  by (simp add: callItem_def ex_call_def createFeedForFormat_def ex_date_def)

lemma content_ex_call: "content (callItem (ex_call f x t)) = x"
  by (simp add: callItem_def ex_call_def createFeedForFormat_def)

text \<open>
  The theorem at a store with two question items and one normal item, for \<open>N = 2\<close>.
\<close>

theorem getLatestItems_sorted_stable_bounded_witness:
  "distinct (getAllFormats (addCalls [] ex_ties)) \<and>
   int (length (getLatestItems (addCalls [] ex_ties) 2)) \<le> 2 \<and>
   map (\<lambda>e. (fst e, content (snd e))) (getLatestItems (addCalls [] ex_ties) 2) =
     [(''question'', ''q2''), (''question'', ''q1'')]"
proof -
  have d: "distinct (getAllFormats (addCalls [] ex_ties))"
    by (simp add: getAllFormats_ex_ties)
  have s: "sort_key (\<lambda>e. - getTime (pubDate (snd e))) (allItems (addCalls [] ex_ties)) =
             allItems (addCalls [] ex_ties)"
    by (simp add: allItems_ex_ties pubDate_ex_call)
  have e: "map (\<lambda>e. (fst e, content (snd e))) (getLatestItems (addCalls [] ex_ties) 2) =
     [(''question'', ''q2''), (''question'', ''q1'')]"
    by (simp add: getLatestItems_def s slice0_def allItems_ex_ties pubDate_ex_call content_ex_call)
  from getLatestItems_sorted_stable_bounded [OF d, of 2]
  have "int (length (getLatestItems (addCalls [] ex_ties) 2)) \<le> 2"
    by auto
  with d e show ?thesis by simp
qed

text \<open>
  C6 as stated fails twice. Three appends in the same millisecond, \<open>q1\<close> to
  \<open>question\<close>, then \<open>n1\<close> to \<open>normal\<close>, then \<open>q2\<close> to
  \<open>question\<close>, come back as \<open>q2, q1, n1\<close>: the tie is not broken by insertion
  order (nor by its reverse). And for \<open>N = -1\<close> the result has two entries, more than
  \<open>N\<close>.
\<close>

theorem getLatestItems_ties_counterexample:
  "map (\<lambda>k. (call_format k, call_content k)) ex_ties =
     [(''question'', ''q1''), (''normal'', ''n1''), (''question'', ''q2'')] \<and>
   map (\<lambda>e. getTime (pubDate (snd e))) (getLatestItems (addCalls [] ex_ties) 10) = [1000, 1000, 1000] \<and>
   map (\<lambda>e. (fst e, content (snd e))) (getLatestItems (addCalls [] ex_ties) 10) =
     [(''question'', ''q2''), (''question'', ''q1''), (''normal'', ''n1'')] \<and>
   length (getLatestItems (addCalls [] ex_ties) (- 1)) = 2 \<and>
   \<not> int (length (getLatestItems (addCalls [] ex_ties) (- 1))) \<le> - 1"
proof -
  have s: "sort_key (\<lambda>e. - getTime (pubDate (snd e))) (allItems (addCalls [] ex_ties)) =
             allItems (addCalls [] ex_ties)"
    by (simp add: allItems_ex_ties pubDate_ex_call)
  have "map (\<lambda>k. (call_format k, call_content k)) ex_ties =
     [(''question'', ''q1''), (''normal'', ''n1''), (''question'', ''q2'')]"
    by (simp add: ex_ties_def ex_call_def)
  then show ?thesis
    by (simp add: getLatestItems_def s slice0_def allItems_ex_ties pubDate_ex_call content_ex_call)
qed

section \<open>Feed store: item identifiers\<close>

lemma callItem_id:
  "item_id (callItem k) = ''coasagent-'' @ call_format k @ ''-'' @ number_toString (getTime (call_ts k))"
  by (simp add: callItem_def createFeedForFormat_def)

lemma callItem_pubDate: "pubDate (callItem k) = call_ts k"
  by (simp add: callItem_def createFeedForFormat_def)

lemma in_feedItems_addCalls:
  assumes "x \<in> set (feedItems (addCalls [] ks) c)"
  shows "\<exists>k. x = callItem k \<and> call_format k = c"
proof -
  from assms have "x \<in> set (rev (map callItem (filter (\<lambda>k. call_format k = c) ks)))"
    unfolding feedItems_addCalls_empty by (rule in_set_takeD)
  then show ?thesis by auto
qed

text \<open>
  C8, as the code has it. In a store built by \<open>addItem\<close> calls from the empty
  store, two items of the same category's feed have the same identifier exactly when they
  were created at the same millisecond timestamp: identifiers are unique within a category
  as far as the timestamps of its items are.
\<close>

theorem item_id_same_iff_same_timestamp:
  assumes "x \<in> set (feedItems (addCalls [] ks) c)" and "y \<in> set (feedItems (addCalls [] ks) c)"
  shows "item_id x = item_id y \<longleftrightarrow> getTime (pubDate x) = getTime (pubDate y)"
proof -
  from assms(1) obtain k where k: "x = callItem k" "call_format k = c"
    using in_feedItems_addCalls by blast
  from assms(2) obtain l where l: "y = callItem l" "call_format l = c"
    using in_feedItems_addCalls by blast
  show ?thesis
    using k l number_toString_inj [of "getTime (call_ts k)" "getTime (call_ts l)"]
    by (auto simp: callItem_id callItem_pubDate)
qed

text \<open>
  The theorem at two appends made at times 1000 and 2000.
\<close>

theorem item_id_same_iff_same_timestamp_witness:
  "callItem (ex_call ''normal'' ''first'' 1000)
     \<in> set (feedItems (addCalls [] [ex_call ''normal'' ''first'' 1000, ex_call ''normal'' ''second'' 2000]) ''normal'') \<and>
   callItem (ex_call ''normal'' ''second'' 2000)
     \<in> set (feedItems (addCalls [] [ex_call ''normal'' ''first'' 1000, ex_call ''normal'' ''second'' 2000]) ''normal'') \<and>
   getTime (pubDate (callItem (ex_call ''normal'' ''first'' 1000))) = 1000 \<and>
   getTime (pubDate (callItem (ex_call ''normal'' ''second'' 2000))) = 2000 \<and>
   item_id (callItem (ex_call ''normal'' ''first'' 1000)) \<noteq> item_id (callItem (ex_call ''normal'' ''second'' 2000))"
proof -
  have f: "feedItems (addCalls [] [ex_call ''normal'' ''first'' 1000, ex_call ''normal'' ''second'' 2000]) ''normal''
     = [callItem (ex_call ''normal'' ''second'' 2000), callItem (ex_call ''normal'' ''first'' 1000)]"
    by (rule feedItems_two_calls) (simp_all add: ex_call_def)
  have t1: "getTime (pubDate (callItem (ex_call ''normal'' ''first'' 1000))) = 1000"
    by (simp add: callItem_pubDate ex_call_def ex_date_def)
  have t2: "getTime (pubDate (callItem (ex_call ''normal'' ''second'' 2000))) = 2000"
    by (simp add: callItem_pubDate ex_call_def ex_date_def)
  show ?thesis
    using item_id_same_iff_same_timestamp
      [of "callItem (ex_call ''normal'' ''first'' 1000)"
          "[ex_call ''normal'' ''first'' 1000, ex_call ''normal'' ''second'' 2000]" "''normal''"
          "callItem (ex_call ''normal'' ''second'' 2000)"]
    by (simp add: f t1 t2)
qed

text \<open>
  C8 as stated fails: two appends to one category within the same millisecond store two
  different items (their contents differ) under one identifier.
\<close>

theorem item_id_collision_counterexample:
  "feedItems (addCalls [] [ex_call ''normal'' ''first'' 1000, ex_call ''normal'' ''second'' 1000]) ''normal''
     = [callItem (ex_call ''normal'' ''second'' 1000), callItem (ex_call ''normal'' ''first'' 1000)] \<and>
   callItem (ex_call ''normal'' ''second'' 1000) \<noteq> callItem (ex_call ''normal'' ''first'' 1000) \<and>
   item_id (callItem (ex_call ''normal'' ''second'' 1000)) = item_id (callItem (ex_call ''normal'' ''first'' 1000))"
proof -
  have "feedItems (addCalls [] [ex_call ''normal'' ''first'' 1000, ex_call ''normal'' ''second'' 1000]) ''normal''
     = [callItem (ex_call ''normal'' ''second'' 1000), callItem (ex_call ''normal'' ''first'' 1000)]"
    by (rule feedItems_two_calls) (simp_all add: ex_call_def)
  moreover have "content (callItem (ex_call ''normal'' ''second'' 1000)) \<noteq> content (callItem (ex_call ''normal'' ''first'' 1000))"
    by (simp add: callItem_def createFeedForFormat_def ex_call_def)
  then have "callItem (ex_call ''normal'' ''second'' 1000) \<noteq> callItem (ex_call ''normal'' ''first'' 1000)"
    by auto
  moreover have "item_id (callItem (ex_call ''normal'' ''second'' 1000)) = item_id (callItem (ex_call ''normal'' ''first'' 1000))"
    by (simp add: callItem_id ex_call_def)
  ultimately show ?thesis by simp
qed

section \<open>Resilient client: the retry loop\<close>

text \<open>
  C10. With a retry budget of 0 the loop body never runs: the call fails at once with the
  exhausted-retries error, no attempt is made (no backend is called), and the client, with
  its current rank and its cooldown map, is returned as it was.
\<close>

theorem generateResponse_zero_retries:
  "generateResponse env prompt 0 c = (c, Inl AllModelsExhausted, [])"
  by (simp add: generateResponse_def generateLoop.simps)












lemma ex_env_down_first_attempt:
  "attemptOnce (ex_env_down 0) ''hello'' newAIClient =
     (\<lparr> models = [''gemini-2.0-flash-exp'', ''gemini-1.5-pro'', ''gemini-1.5-flash''],
        currentModelIndex = 1,
        rateLimitCooldown = [] \<rparr>,
      Failed ''gemini-2.0-flash-exp'' ''api_error: Service temporarily unavailable'')"
  by (simp add: attemptOnce_def newAIClient_def ex_env_down_def getCurrentModel_def inCooldown_def
      isRateLimit_def downgradeModel_def Let_def)



section \<open>Resilient client: rate limits\<close>








section \<open>Scheduler: example states\<close>

lemma ex_created_eq:
  "ex_created =
     \<lparr> instances = [(ex_id, \<lparr> inst_id = ex_id, config = ex_config, status = Stopped,
                               lastUpdate = ex_date 1000, cronJob = None \<rparr>)],
       rssManager = [], intervals = [], timeouts = [], nextHandle = 1 \<rparr>"
  by (simp add: ex_created_def createInstance_def newInstanceManager_def generateInstanceId_def
      number_toString_def show_nat.simps digit_char_def ex_id_def Let_def)

lemma ex_running_eq:
  "ex_running =
     \<lparr> instances = [(ex_id, \<lparr> inst_id = ex_id, config = ex_config, status = Running,
                               lastUpdate = ex_date 1001, cronJob = Some 1 \<rparr>)],
       rssManager = [], intervals = [(1, ex_id)], timeouts = [ex_id], nextHandle = 2 \<rparr>"
  by (simp add: ex_running_def ex_created_eq startInstance_def)

lemma ex_errored_eq:
  "ex_errored =
     \<lparr> instances = [(ex_id, \<lparr> inst_id = ex_id, config = ex_config, status = Error,
                               lastUpdate = ex_date 1000, cronJob = None \<rparr>)],
       rssManager = [], intervals = [], timeouts = [], nextHandle = 1 \<rparr>"
  by (simp add: ex_errored_def ex_created_eq startInstance_def)

lemma getInstance_ex_running:
  "getInstance ex_running ex_id =
     Some \<lparr> inst_id = ex_id, config = ex_config, status = Running, lastUpdate = ex_date 1001, cronJob = Some 1 \<rparr>"
  by (simp add: getInstance_def ex_running_eq)

lemma getInstance_ex_errored:
  "getInstance ex_errored ex_id =
     Some \<lparr> inst_id = ex_id, config = ex_config, status = Error, lastUpdate = ex_date 1000, cronJob = None \<rparr>"
  by (simp add: getInstance_def ex_errored_eq)

section \<open>Scheduler: a cycle that throws\<close>

lemma getInstance_stopInstance:
  "getInstance S i = Some inst \<Longrightarrow>
   getInstance (fst (stopInstance S i now)) i = Some (inst\<lparr> cronJob := None, status := Stopped, lastUpdate := now \<rparr>)"
  by (simp add: getInstance_def stopInstance_def update_conv')

lemma map_of_clearInterval: "map_of (clearInterval h ts) h = None"
  by (induction ts) (auto simp: clearInterval_def)

lemma getInstance_cycleCatch:
  "getInstance (cycleCatch S i inst env) i =
     Some (inst\<lparr> cronJob := None, status := Stopped, lastUpdate := stop_now env \<rparr>)"
  by (simp add: cycleCatch_def Let_def getInstance_def stopInstance_def update_conv')

lemma intervals_cycleCatch:
  "intervals (cycleCatch S i inst env) =
     (case cronJob inst of Some h \<Rightarrow> clearInterval h (intervals S) | None \<Rightarrow> intervals S)"
  by (cases "cronJob inst") (simp_all add: cycleCatch_def Let_def stopInstance_def update_conv')

lemma executeAgentCycle_not_running:
  "getInstance S i = Some inst \<Longrightarrow> status inst \<noteq> Running \<Longrightarrow> executeAgentCycle S i env = S"
  by (simp add: executeAgentCycle_def getInstance_def)

lemma executeAgentCycle_throws:
  assumes "getInstance S i = Some inst" and "status inst = Running"
    and "collectAll env (config inst) = Inl message \<or>
         (collectAll env (config inst) = Inr d \<and> d \<noteq> [] \<and> processContent env (config inst) d = Inl message)"
  shows "executeAgentCycle S i env = cycleCatch S i inst env"
  using assms by (auto simp: executeAgentCycle_def getInstance_def)

text \<open>
  C1, what the code does. When the collector or the processor throws in the cycle of a
  running instance, the \<open>catch\<close> block stores status \<open>error\<close> and then calls
  \<open>stopInstance\<close>, which overwrites the status: after the cycle the instance is
  \<open>stopped\<close>, not \<open>error\<close>. Its timer handle is cleared and no longer armed,
  firing the cleared handle runs nothing, and a further run of the cycle routine for the
  instance changes nothing.
\<close>

theorem failed_cycle_ends_stopped:
  assumes "getInstance S i = Some inst" and "status inst = Running"
    and "collectAll env (config inst) = Inl message \<or>
         (collectAll env (config inst) = Inr d \<and> d \<noteq> [] \<and> processContent env (config inst) d = Inl message)"
  shows "map_option status (getInstance (executeAgentCycle S i env) i) = Some Stopped \<and>
         map_option cronJob (getInstance (executeAgentCycle S i env) i) = Some None \<and>
         (\<forall>h. cronJob inst = Some h \<longrightarrow>
              map_of (intervals (executeAgentCycle S i env)) h = None \<and>
              intervalFires (executeAgentCycle S i env) h env' = executeAgentCycle S i env) \<and>
         executeAgentCycle (executeAgentCycle S i env) i env' = executeAgentCycle S i env"
proof -
  have e: "executeAgentCycle S i env = cycleCatch S i inst env"
    using assms by (rule executeAgentCycle_throws)
  have g: "getInstance (cycleCatch S i inst env) i =
     Some (inst\<lparr> cronJob := None, status := Stopped, lastUpdate := stop_now env \<rparr>)"
    by (rule getInstance_cycleCatch)
  have "executeAgentCycle (cycleCatch S i inst env) i env' = cycleCatch S i inst env"
    by (rule executeAgentCycle_not_running [OF g]) simp
  then show ?thesis
    by (auto simp: e g intervals_cycleCatch map_of_clearInterval intervalFires_def)
qed

text \<open>
  The theorem at a created and started instance whose processor throws.
\<close>

theorem failed_cycle_ends_stopped_witness:
  "getInstance ex_running ex_id =
     Some \<lparr> inst_id = ex_id, config = ex_config, status = Running, lastUpdate = ex_date 1001, cronJob = Some 1 \<rparr> \<and>
   collectAll (ex_cycle_env (Inr ex_data) (Inl ''All models exhausted after maximum retries'')) ex_config = Inr ex_data \<and>
   ex_data \<noteq> [] \<and>
   processContent (ex_cycle_env (Inr ex_data) (Inl ''All models exhausted after maximum retries'')) ex_config ex_data
     = Inl ''All models exhausted after maximum retries'' \<and>
   map_option status (getInstance
     (executeAgentCycle ex_running ex_id (ex_cycle_env (Inr ex_data) (Inl ''All models exhausted after maximum retries''))) ex_id)
     = Some Stopped \<and>
   map_of (intervals
     (executeAgentCycle ex_running ex_id (ex_cycle_env (Inr ex_data) (Inl ''All models exhausted after maximum retries'')))) 1
     = None"
proof -
  let ?env = "ex_cycle_env (Inr ex_data) (Inl ''All models exhausted after maximum retries'')"
  let ?inst = "\<lparr> inst_id = ex_id, config = ex_config, status = Running, lastUpdate = ex_date 1001, cronJob = Some 1 \<rparr>"
  have g: "getInstance ex_running ex_id = Some ?inst"
    by (simp add: getInstance_def ex_running_eq)
  have r: "status ?inst = Running" by simp
  have d: "ex_data \<noteq> []" by (simp add: ex_data_def)
  have t: "collectAll ?env (config ?inst) = Inl ''All models exhausted after maximum retries'' \<or>
           (collectAll ?env (config ?inst) = Inr ex_data \<and> ex_data \<noteq> [] \<and>
            processContent ?env (config ?inst) ex_data = Inl ''All models exhausted after maximum retries'')"
    using d by (simp add: ex_cycle_env_def)
  show ?thesis
    using failed_cycle_ends_stopped [OF g r t] g d
    by (simp add: ex_cycle_env_def)
qed

section \<open>Scheduler: instances in status error\<close>

lemma getInstance_startInstance:
  "getInstance S i = Some inst \<Longrightarrow> status inst \<noteq> Running \<Longrightarrow>
   getInstance (fst (startInstance S i armed now)) i =
     Some (if armed then inst\<lparr> cronJob := Some (nextHandle S), status := Running, lastUpdate := now \<rparr>
           else inst\<lparr> status := Error \<rparr>)"
  by (simp add: getInstance_def startInstance_def update_conv')

lemma getInstance_updateInstanceConfig:
  "getInstance S i = Some inst \<Longrightarrow> status inst \<noteq> Running \<Longrightarrow>
   getInstance (fst (updateInstanceConfig S i cfg stopNow now armed startNow)) i =
     Some (inst\<lparr> config := cfg, lastUpdate := now \<rparr>)"
  by (simp add: getInstance_def updateInstanceConfig_def update_conv' Let_def)

lemma getInstance_deleteInstance: "getInstance (fst (deleteInstance S i now)) i = None"
  by (cases "map_of (instances S) i")
     (simp_all add: getInstance_def deleteInstance_def Let_def delete_conv')

text \<open>
  Operations addressed to another instance leave an instance as it is.
\<close>

lemma getInstance_other:
  assumes "j \<noteq> i"
  shows "getInstance (fst (startInstance S j armed now)) i = getInstance S i"
    and "getInstance (fst (stopInstance S j now)) i = getInstance S i"
    and "getInstance (fst (deleteInstance S j now)) i = getInstance S i"
    and "getInstance (executeAgentCycle S j env) i = getInstance S i"
proof -
  show 1: "getInstance (fst (startInstance S j armed now)) i = getInstance S i"
    using assms by (simp add: getInstance_def startInstance_def update_conv' split: option.splits)
  show 2: "getInstance (fst (stopInstance S j now)) i = getInstance S i" for S
    using assms by (simp add: getInstance_def stopInstance_def update_conv' split: option.splits)
  show "getInstance (fst (deleteInstance S j now)) i = getInstance S i"
    using assms 2 [of S]
    by (simp add: getInstance_def deleteInstance_def Let_def delete_conv' split: option.splits)
  show "getInstance (executeAgentCycle S j env) i = getInstance S i"
    using assms
    by (simp add: getInstance_def executeAgentCycle_def cycleCatch_def Let_def stopInstance_def
        update_conv' split: option.splits sum.splits)
qed

text \<open>
  C5, as the code has it. An instance in status \<open>error\<close> is left alone by the
  cycle routine (the cycle returns at once and changes nothing), by a configuration update
  (the status stays \<open>error\<close>) and by every operation addressed to another instance.
  An explicit \<open>startInstance\<close> moves it to \<open>running\<close> when the timer is armed (and
  leaves it in \<open>error\<close> when arming fails), an explicit \<open>stopInstance\<close> moves it
  to \<open>stopped\<close>, and \<open>deleteInstance\<close> removes it.
\<close>

theorem error_instance_transitions:
  assumes "getInstance S i = Some inst" and "status inst = Error"
  shows "executeAgentCycle S i env = S \<and>
         map_option status (getInstance (fst (startInstance S i True now)) i) = Some Running \<and>
         map_option status (getInstance (fst (startInstance S i False now)) i) = Some Error \<and>
         map_option status (getInstance (fst (stopInstance S i now)) i) = Some Stopped \<and>
         map_option status (getInstance (fst (updateInstanceConfig S i cfg stopNow now armed startNow)) i)
           = Some Error \<and>
         getInstance (fst (deleteInstance S i now)) i = None \<and>
         (j \<noteq> i \<longrightarrow>
            getInstance (fst (startInstance S j armed now)) i = Some inst \<and>
            getInstance (fst (stopInstance S j now)) i = Some inst \<and>
            getInstance (fst (deleteInstance S j now)) i = Some inst \<and>
            getInstance (executeAgentCycle S j env) i = Some inst)"
proof -
  have nr: "status inst \<noteq> Running"
    using assms(2) by simp
  have "executeAgentCycle S i env = S"
    using assms(1) nr by (rule executeAgentCycle_not_running)
  then show ?thesis
    using assms
    by (simp add: getInstance_startInstance [OF assms(1) nr] getInstance_stopInstance
        getInstance_updateInstanceConfig [OF assms(1) nr] getInstance_deleteInstance getInstance_other)
qed

text \<open>
  The theorem at an instance whose start failed to arm the timer.
\<close>

theorem error_instance_transitions_witness:
  "map_option status (getInstance ex_errored ex_id) = Some Error \<and>
   executeAgentCycle ex_errored ex_id (ex_cycle_env (Inr ex_data) (Inr ''text'')) = ex_errored \<and>
   map_option status (getInstance (fst (startInstance ex_errored ex_id True (ex_date 2000))) ex_id) = Some Running \<and>
   map_option status (getInstance (fst (stopInstance ex_errored ex_id (ex_date 2000))) ex_id) = Some Stopped \<and>
   getInstance (fst (stopInstance ex_errored ''agent-7-other'' (ex_date 2000))) ex_id = getInstance ex_errored ex_id"
proof -
  have s: "status \<lparr> inst_id = ex_id, config = ex_config, status = Error, lastUpdate = ex_date 1000, cronJob = None \<rparr> = Error"
    by simp
  have n: "''agent-7-other'' \<noteq> ex_id"
    by (simp add: ex_id_def)
  show ?thesis
    using error_instance_transitions [OF getInstance_ex_errored s,
        of "ex_cycle_env (Inr ex_data) (Inr ''text'')" "ex_date 2000" ex_config "ex_date 2000" True "ex_date 2000"
           "''agent-7-other''"] n
    by (simp add: getInstance_ex_errored)
qed

text \<open>
  C5 as stated fails: an instance that reached \<open>error\<close> (created, then started with
  \<open>setInterval\<close> throwing) is moved to \<open>running\<close> by \<open>startInstance\<close> and to
  \<open>stopped\<close> by \<open>stopInstance\<close>.
\<close>

theorem error_instance_restart_counterexample:
  "map_option status (getInstance ex_errored ex_id) = Some Error \<and>
   map_option status (getInstance (fst (startInstance ex_errored ex_id True (ex_date 2000))) ex_id) = Some Running \<and>
   map_option status (getInstance (fst (stopInstance ex_errored ex_id (ex_date 2000))) ex_id) = Some Stopped"
  by (simp add: getInstance_def ex_errored_eq startInstance_def stopInstance_def)

section \<open>Scheduler: source attribution\<close>

lemma newSet_snoc:
  "newSet (xs @ [x]) = (if x \<in> set (newSet xs) then newSet xs else newSet xs @ [x])"
  by (simp add: newSet_def)

lemma newSet_first_occurrences: "newSet xs = rev (remdups (rev xs))"
proof (induction xs rule: rev_induct)
  case Nil
  then show ?case by (simp add: newSet_def)
next
  case (snoc x xs)
  have "set (newSet xs) = set xs"
    by (simp add: snoc.IH)
  then show ?case
    by (simp add: newSet_snoc snoc.IH)
qed

lemma distinct_newSet: "distinct (newSet xs)"
  by (simp add: newSet_first_occurrences)

lemma set_newSet: "set (newSet xs) = set xs"
  by (simp add: newSet_first_occurrences)

lemma length_newSet: "length (newSet xs) = card (set xs)"
  using distinct_card [OF distinct_newSet, of xs] by (simp add: set_newSet)

lemma sourceAttribution_of_eq:
  "sourceAttribution_of d =
     ''Generated from '' @ number_toString (int (card (source ` set d))) @ '' sources: '' @
     join (take 3 (newSet (map source d))) '', '' @
     (if card (source ` set d) > 3 then ''...'' else '''')"
  by (simp add: sourceAttribution_of_def Let_def length_newSet)

lemma executeAgentCycle_success:
  assumes "getInstance S i = Some inst" and "status inst = Running"
    and "collectAll env (config inst) = Inr d" and "d \<noteq> []"
    and "processContent env (config inst) d = Inr output"
  shows "rssManager (executeAgentCycle S i env) =
           addItem (rssManager S) (outputFormat (config inst)) output (config inst)
             (sourceAttribution_of d) (item_now env) (feed_now env)"
  using assms by (simp add: executeAgentCycle_def getInstance_def)

lemma hd_feedItems_addItem:
  "hd (feedItems (addItem M format cont cfg attribution ts now) format) =
     items (createFeedForFormat format cont cfg attribution ts) ! 0"
  by (simp add: feedItems_addItem maxItemsPerFeed_def)

lemma newSet_ex_data:
  "newSet (map source ex_data) = [''Twitter'', ''YouTube'', ''Reddit: r/news'', ''Web: https://example.com'']"
  by (simp add: newSet_def ex_data_def ex_item_def)

lemma sourceAttribution_of_ex_data:
  "sourceAttribution_of ex_data = ''Generated from 4 sources: Twitter, YouTube, Reddit: r/news...''"
  by (simp add: sourceAttribution_of_def newSet_ex_data number_toString_def show_nat.simps digit_char_def)

text \<open>
  C9, as the code has it. In a successful cycle (running instance, non-empty collection,
  processor returns a text) the item put at the head of the category's feed carries the
  attribution string \<open>Generated from n sources: \<close> followed by the first three
  distinct source identifiers joined by \<open>, \<close>, where \<open>n\<close> is the number of
  distinct sources of the collected items and the distinct sources are taken in the order
  of their first occurrence; the string ends with the suffix \<open>...\<close> exactly when
  there are more than three distinct sources. There is no \<open>+N more\<close> suffix.
\<close>

theorem cycle_source_attribution:
  assumes "getInstance S i = Some inst" and "status inst = Running"
    and "collectAll env (config inst) = Inr d" and "d \<noteq> []"
    and "processContent env (config inst) d = Inr output"
  shows "sourceAttribution (hd (feedItems (rssManager (executeAgentCycle S i env)) (outputFormat (config inst))))
           = sourceAttribution_of d \<and>
         sourceAttribution_of d =
           ''Generated from '' @ number_toString (int (card (source ` set d))) @ '' sources: '' @
           join (take 3 (newSet (map source d))) '', '' @
           (if card (source ` set d) > 3 then ''...'' else '''') \<and>
         distinct (newSet (map source d)) \<and>
         set (newSet (map source d)) = source ` set d \<and>
         newSet (map source d) = rev (remdups (rev (map source d)))"
proof -
  have "sourceAttribution (hd (feedItems (rssManager (executeAgentCycle S i env)) (outputFormat (config inst))))
           = sourceAttribution_of d"
    by (simp add: executeAgentCycle_success [OF assms] hd_feedItems_addItem createFeedForFormat_def)
  moreover have "newSet (map source d) = rev (remdups (rev (map source d)))"
    by (rule newSet_first_occurrences)
  ultimately show ?thesis
    using sourceAttribution_of_eq [of d] by (simp add: distinct_newSet set_newSet)
qed

text \<open>
  The theorem at a cycle that collected five items from four distinct sources.
\<close>

theorem cycle_source_attribution_witness:
  "getInstance ex_running ex_id =
     Some \<lparr> inst_id = ex_id, config = ex_config, status = Running, lastUpdate = ex_date 1001, cronJob = Some 1 \<rparr> \<and>
   collectAll (ex_cycle_env (Inr ex_data) (Inr ''text'')) ex_config = Inr ex_data \<and>
   ex_data \<noteq> [] \<and>
   processContent (ex_cycle_env (Inr ex_data) (Inr ''text'')) ex_config ex_data = Inr ''text'' \<and>
   sourceAttribution (hd (feedItems (rssManager
       (executeAgentCycle ex_running ex_id (ex_cycle_env (Inr ex_data) (Inr ''text'')))) ''normal''))
     = ''Generated from 4 sources: Twitter, YouTube, Reddit: r/news...''"
proof -
  let ?env = "ex_cycle_env (Inr ex_data) (Inr ''text'')"
  let ?inst = "\<lparr> inst_id = ex_id, config = ex_config, status = Running, lastUpdate = ex_date 1001, cronJob = Some 1 \<rparr>"
  have r: "status ?inst = Running" by simp
  have c: "collectAll ?env (config ?inst) = Inr ex_data" by (simp add: ex_cycle_env_def)
  have d: "ex_data \<noteq> []" by (simp add: ex_data_def)
  have p: "processContent ?env (config ?inst) ex_data = Inr ''text''" by (simp add: ex_cycle_env_def)
  have k: "sourceAttribution (hd (feedItems (rssManager (executeAgentCycle ex_running ex_id ?env))
              (outputFormat (config ?inst)))) = sourceAttribution_of ex_data"
    using cycle_source_attribution [OF getInstance_ex_running r c d p] by (rule conjunct1)
  have f: "outputFormat (config ?inst) = ''normal''" by (simp add: ex_config_def)
  have "sourceAttribution (hd (feedItems (rssManager (executeAgentCycle ex_running ex_id ?env)) ''normal''))
          = ''Generated from 4 sources: Twitter, YouTube, Reddit: r/news...''"
    using k unfolding f by (simp only: sourceAttribution_of_ex_data)
  moreover have "collectAll ?env ex_config = Inr ex_data" "processContent ?env ex_config ex_data = Inr ''text''"
    using c p by simp_all
  ultimately show ?thesis
    using d getInstance_ex_running by simp
qed

text \<open>
  C9 as stated fails: with four distinct sources the appended attribution ends in
  \<open>...\<close> and contains no \<open>+1 more\<close>.
\<close>

theorem cycle_source_attribution_counterexample:
  "card (source ` set ex_data) = 4 \<and>
   sourceAttribution (hd (feedItems (rssManager
       (executeAgentCycle ex_running ex_id (ex_cycle_env (Inr ex_data) (Inr ''text'')))) ''normal''))
     = ''Generated from 4 sources: Twitter, YouTube, Reddit: r/news...'' \<and>
   \<not> str_includes ''Generated from 4 sources: Twitter, YouTube, Reddit: r/news...'' ''+1 more''"
proof -
  have c: "card (source ` set ex_data) = 4"
    using length_newSet [of "map source ex_data"] by (simp add: newSet_ex_data)
  have e: "rssManager (executeAgentCycle ex_running ex_id (ex_cycle_env (Inr ex_data) (Inr ''text''))) =
      addItem [] ''normal'' ''text'' ex_config (sourceAttribution_of ex_data) (ex_date 5000) (ex_date 5001)"
    using executeAgentCycle_success [OF getInstance_ex_running, of "ex_cycle_env (Inr ex_data) (Inr ''text'')" ex_data "''text''"]
    by (simp add: ex_cycle_env_def ex_data_def ex_config_def ex_running_eq)
  have "\<not> str_includes ''Generated from 4 sources: Twitter, YouTube, Reddit: r/news...'' ''+1 more''"
    by simp
  then show ?thesis
    by (simp add: c e hd_feedItems_addItem createFeedForFormat_def sourceAttribution_of_ex_data)
qed

end
